theory Spec2Isabelle
  imports Main "HOL-Library.Multiset"
begin

section \<open>The runner of \<^verbatim>\<open>opencompass/runners/base.py\<close>\<close>

text \<open>
  The module defines one class, \<^verbatim>\<open>BaseRunner\<close>, with a constructor, the entry point
  \<^verbatim>\<open>__call__\<close>, the abstract method \<^verbatim>\<open>launch\<close> and the method \<^verbatim>\<open>summarize\<close>.
  Everything the methods do beyond computing values is an effect on a collaborator that
  lives outside the module: the logger, the Lark reporter, the host's user database and
  the subclass that implements \<^verbatim>\<open>launch\<close>. The embedding makes these explicit:

  \<^item> the effects are recorded, in program order, in a trace of events carried by the state;
  \<^item> an exception is the \<open>Inl\<close> branch of a sum, a normal return of \<^verbatim>\<open>None\<close> is \<open>Inr ()\<close>;
  \<^item> the collaborators are parameters: what \<^verbatim>\<open>post\<close> does with a message (return or
    raise), what \<^verbatim>\<open>getpass.getuser()\<close> returns, what \<^verbatim>\<open>launch\<close> does.

  Of the calls the module makes, \<^verbatim>\<open>launch\<close> and \<^verbatim>\<open>post\<close> are modelled as able to raise.
  The logger's \<^verbatim>\<open>error\<close>, \<^verbatim>\<open>getpass.getuser()\<close> and the attribute lookup
  \<^verbatim>\<open>self.task_cfg.type\<close> are taken to return.

  Python's \<^verbatim>\<open>str\<close> is modelled by \<open>string\<close>, holding the UTF-8 bytes of the text. The
  module never takes the length of a string nor indexes one, so nothing it computes depends
  on the difference between bytes and code points.
\<close>

subsection \<open>Text\<close>

text \<open>\<^verbatim>\<open>str(n)\<close> for an integer, as the f-strings apply it: decimal digits, a minus sign
  for a negative number.\<close>

definition digit :: "nat \<Rightarrow> char" where
  "digit d = ''0123456789'' ! d"

fun str_nat :: "nat \<Rightarrow> string" where
  "str_nat n = (if n < 10 then [digit n] else str_nat (n div 10) @ [digit (n mod 10)])"

declare str_nat.simps [simp del]

definition str_int :: "int \<Rightarrow> string" where
  "str_int i = (if i < 0 then CHR ''-'' # str_nat (nat (- i)) else str_nat (nat i))"

text \<open>\<^verbatim>\<open>sep.join(xs)\<close>.\<close>

fun join :: "string \<Rightarrow> string list \<Rightarrow> string" where
  "join sep [] = []"
| "join sep [x] = x"
| "join sep (x # y # ys) = x @ sep @ join sep (y # ys)"

text \<open>\<^verbatim>\<open>s.split(c)\<close> for a one-character separator: how a reader of the message cuts
  it into lines. The module does not call it; the properties of the message body are stated
  with it.\<close>

fun split_on :: "char \<Rightarrow> string \<Rightarrow> string list" where
  "split_on c [] = [[]]"
| "split_on c (x # xs) =
     (if x = c then [] # split_on c xs
      else (case split_on c xs of [] \<Rightarrow> [[x]] | l # ls \<Rightarrow> (x # l) # ls))"

definition newline :: char where
  "newline = CHR 0x0A"

text \<open>The literal fragments of the f-strings of \<^verbatim>\<open>summarize\<close>, as UTF-8 bytes, in the
  order in which they occur in the source (lines 68 to 80).\<close>

definition lit_of :: string where
  \<comment> \<open>line 68 and 77: a space, U+7684, a space\<close>
  "lit_of = [CHR 0x20, CHR 0xE7, CHR 0x9A, CHR 0x84, CHR 0x20]"

definition lit_task_done :: string where
  \<comment> \<open>line 69 and 78: a space, U+4EFB U+52A1 U+5DF2 U+5B8C U+6210 U+FF0C\<close>
  "lit_task_done = [CHR 0x20, CHR 0xE4, CHR 0xBB, CHR 0xBB, CHR 0xE5, CHR 0x8A, CHR 0xA1,
     CHR 0xE5, CHR 0xB7, CHR 0xB2, CHR 0xE5, CHR 0xAE, CHR 0x8C, CHR 0xE6, CHR 0x88, CHR 0x90,
     CHR 0xEF, CHR 0xBC, CHR 0x8C]"

definition lit_succeeded :: string where
  \<comment> \<open>line 70 and 79: U+6210 U+529F U+4EFB U+52A1, a space\<close>
  "lit_succeeded = [CHR 0xE6, CHR 0x88, CHR 0x90, CHR 0xE5, CHR 0x8A, CHR 0x9F, CHR 0xE4,
     CHR 0xBB, CHR 0xBB, CHR 0xE5, CHR 0x8A, CHR 0xA1, CHR 0x20]"

definition lit_count_comma :: string where
  \<comment> \<open>line 70: a space, U+4E2A U+FF0C\<close>
  "lit_count_comma = [CHR 0x20, CHR 0xE4, CHR 0xB8, CHR 0xAA, CHR 0xEF, CHR 0xBC, CHR 0x8C]"

definition lit_failed :: string where
  \<comment> \<open>line 71: U+5931 U+8D25, a space\<close>
  "lit_failed = [CHR 0xE5, CHR 0xA4, CHR 0xB1, CHR 0xE8, CHR 0xB4, CHR 0xA5, CHR 0x20]"

definition lit_failed_list :: string where
  \<comment> \<open>line 71: a space, U+4E2A U+3002, then U+4EE5 U+4E0B U+4E3A U+5931 U+8D25 U+7684
      U+4EFB U+52A1 U+5217 U+8868 U+FF1A\<close>
  "lit_failed_list = [CHR 0x20, CHR 0xE4, CHR 0xB8, CHR 0xAA, CHR 0xE3, CHR 0x80, CHR 0x82,
     CHR 0xE4, CHR 0xBB, CHR 0xA5, CHR 0xE4, CHR 0xB8, CHR 0x8B, CHR 0xE4, CHR 0xB8, CHR 0xBA,
     CHR 0xE5, CHR 0xA4, CHR 0xB1, CHR 0xE8, CHR 0xB4, CHR 0xA5, CHR 0xE7, CHR 0x9A, CHR 0x84,
     CHR 0xE4, CHR 0xBB, CHR 0xBB, CHR 0xE5, CHR 0x8A, CHR 0xA1, CHR 0xE5, CHR 0x88, CHR 0x97,
     CHR 0xE8, CHR 0xA1, CHR 0xA8, CHR 0xEF, CHR 0xBC, CHR 0x9A]"

definition lit_title_failed_pre :: string where
  \<comment> \<open>line 73: U+60B2 U+62A5 U+FF1A U+60A8 U+6709\<close>
  "lit_title_failed_pre = [CHR 0xE6, CHR 0x82, CHR 0xB2, CHR 0xE6, CHR 0x8A, CHR 0xA5,
     CHR 0xEF, CHR 0xBC, CHR 0x9A, CHR 0xE6, CHR 0x82, CHR 0xA8, CHR 0xE6, CHR 0x9C, CHR 0x89]"

definition lit_title_failed_post :: string where
  \<comment> \<open>line 73 and 74, two adjacent literals: U+4E2A, then U+4EFB U+52A1 U+70B8 U+4E86\<close>
  "lit_title_failed_post = [CHR 0xE4, CHR 0xB8, CHR 0xAA] @
     [CHR 0xE4, CHR 0xBB, CHR 0xBB, CHR 0xE5, CHR 0x8A, CHR 0xA1, CHR 0xE7, CHR 0x82, CHR 0xB8,
      CHR 0xE4, CHR 0xBA, CHR 0x86]"

definition lit_count_stop :: string where
  \<comment> \<open>line 79: a space, U+4E2A U+3002\<close>
  "lit_count_stop = [CHR 0x20, CHR 0xE4, CHR 0xB8, CHR 0xAA, CHR 0xE3, CHR 0x80, CHR 0x82]"

definition lit_title_done :: string where
  \<comment> \<open>line 80: U+559C U+62A5 U+FF1A U+5168 U+90E8 U+4EFB U+52A1 U+5B8C U+6210\<close>
  "lit_title_done = [CHR 0xE5, CHR 0x96, CHR 0x9C, CHR 0xE6, CHR 0x8A, CHR 0xA5, CHR 0xEF,
     CHR 0xBC, CHR 0x9A, CHR 0xE5, CHR 0x85, CHR 0xA8, CHR 0xE9, CHR 0x83, CHR 0xA8, CHR 0xE4,
     CHR 0xBB, CHR 0xBB, CHR 0xE5, CHR 0x8A, CHR 0xA1, CHR 0xE5, CHR 0xAE, CHR 0x8C, CHR 0xE6,
     CHR 0x88, CHR 0x90]"

subsection \<open>The runner, its collaborators and its effects\<close>

text \<open>\<^verbatim>\<open>LarkReporter(url)\<close>: the module only constructs it, tests it for truth and calls
  its \<^verbatim>\<open>post\<close>. An instance of a class that defines neither \<^verbatim>\<open>__bool__\<close> nor
  \<^verbatim>\<open>__len__\<close> is true.\<close>

datatype lark_reporter = LarkReporter (url: string)

text \<open>The attributes \<^verbatim>\<open>__init__\<close> sets. Of \<^verbatim>\<open>self.task_cfg\<close> the module reads
  \<^verbatim>\<open>.type\<close> only, and only inside an f-string: the field holds that text.\<close>

record runner =
  task_cfg_type :: string
  debug :: bool
  lark_reporter :: "lark_reporter option"

text \<open>What the module does to the outside: an error-level log entry
  (\<^verbatim>\<open>get_logger().error(msg)\<close>), and a call \<^verbatim>\<open>post(title=..., content=...)\<close> on a
  reporter.\<close>

datatype event = LogError string | Post lark_reporter string string

text \<open>What the outside gives the module: the name \<^verbatim>\<open>getpass.getuser()\<close> returns, and
  whether a call of \<^verbatim>\<open>post\<close> returns (\<open>Inr ()\<close>) or raises (\<open>Inl e\<close>).\<close>

record 'e env =
  getuser :: string
  post :: "lark_reporter \<Rightarrow> string \<Rightarrow> string \<Rightarrow> 'e + unit"

text \<open>The state a method runs in: the object \<^verbatim>\<open>self\<close> and the effects so far.\<close>

record state =
  self :: runner
  trace :: "event list"

type_synonym status = "(string \<times> int) list"

subsection \<open>\<^verbatim>\<open>__init__\<close> (lines 20 to 29)\<close>

text \<open>The truth value of the argument \<^verbatim>\<open>lark_bot_url\<close>, a string or \<^verbatim>\<open>None\<close>.\<close>

fun truthy :: "string option \<Rightarrow> bool" where
  "truthy None = False"
| "truthy (Some u) = (u \<noteq> [])"

definition init :: "string \<Rightarrow> bool \<Rightarrow> string option \<Rightarrow> runner" where
  "init task dbg lark_bot_url =
     \<lparr>task_cfg_type = task,
      debug = dbg,
      lark_reporter =
        (if truthy lark_bot_url then Some (LarkReporter (the lark_bot_url)) else None)\<rparr>"

subsection \<open>\<^verbatim>\<open>summarize\<close> (lines 53 to 80)\<close>

definition log_error :: "string \<Rightarrow> state \<Rightarrow> state" where
  "log_error msg s = s\<lparr>trace := trace s @ [LogError msg]\<rparr>"

text \<open>The f-string of line 63.\<close>

definition failed_msg :: "string \<Rightarrow> int \<Rightarrow> string" where
  "failed_msg task code = task @ '' failed with code '' @ str_int code"

text \<open>The loop of lines 61 to 64, over the state and the list \<^verbatim>\<open>failed_logs\<close>.\<close>

fun status_loop :: "status \<Rightarrow> state \<times> string list \<Rightarrow> state \<times> string list" where
  "status_loop [] acc = acc"
| "status_loop ((task, code) # rest) (s, failed_logs) =
     (if code \<noteq> 0
      then status_loop rest (log_error (failed_msg task code) s, failed_logs @ [task])
      else status_loop rest (s, failed_logs))"

text \<open>Line 66.\<close>

definition num_succeeded :: "status \<Rightarrow> string list \<Rightarrow> int" where
  "num_succeeded status failed_logs = int (length status) - int (length failed_logs)"

text \<open>Lines 68 to 72 and 73 to 74: the message of the branch \<^verbatim>\<open>len(failed_logs) > 0\<close>.\<close>

definition failed_header :: "string \<Rightarrow> string \<Rightarrow> int \<Rightarrow> nat \<Rightarrow> string" where
  "failed_header user ty n_ok n_failed =
     user @ lit_of @ ty @ lit_task_done @ lit_succeeded @ str_int n_ok @ lit_count_comma
       @ lit_failed @ str_int (int n_failed) @ lit_failed_list"

definition failed_content :: "string \<Rightarrow> string \<Rightarrow> int \<Rightarrow> string list \<Rightarrow> string" where
  "failed_content user ty n_ok failed_logs =
     failed_header user ty n_ok (length failed_logs) @ [newline] @ join [newline] failed_logs"

definition failed_title :: "nat \<Rightarrow> string" where
  "failed_title n_failed = lit_title_failed_pre @ str_int (int n_failed) @ lit_title_failed_post"

text \<open>Lines 77 to 80: the message of the other branch.\<close>

definition done_content :: "string \<Rightarrow> string \<Rightarrow> int \<Rightarrow> string" where
  "done_content user ty n_ok =
     user @ lit_of @ ty @ lit_task_done @ lit_succeeded @ str_int n_ok @ lit_count_stop"

text \<open>\<^verbatim>\<open>self.lark_reporter.post(title=..., content=...)\<close>: the call is an effect, and its
  outcome is the outcome of the statement, since no handler encloses it.\<close>

definition do_post :: "'e env \<Rightarrow> lark_reporter \<Rightarrow> string \<Rightarrow> string \<Rightarrow> state \<Rightarrow> state \<times> ('e + unit)" where
  "do_post env rep title content s =
     (s\<lparr>trace := trace s @ [Post rep title content]\<rparr>, post env rep title content)"

definition summarize :: "'e env \<Rightarrow> status \<Rightarrow> state \<Rightarrow> state \<times> ('e + unit)" where
  "summarize env status s =
     (case status_loop status (s, []) of (s1, failed_logs) \<Rightarrow>
        (case lark_reporter (self s1) of
           None \<Rightarrow> (s1, Inr ())
         | Some rep \<Rightarrow>
             (if length failed_logs > 0
              then do_post env rep (failed_title (length failed_logs))
                     (failed_content (getuser env) (task_cfg_type (self s1))
                        (num_succeeded status failed_logs) failed_logs) s1
              else do_post env rep lit_title_done
                     (done_content (getuser env) (task_cfg_type (self s1))
                        (num_succeeded status failed_logs)) s1)))"

subsection \<open>\<^verbatim>\<open>__call__\<close> (lines 31 to 39)\<close>

text \<open>\<^verbatim>\<open>launch\<close> is abstract: a subclass supplies it. It runs in the same state, may have
  effects of its own, and either returns the list of (task name, exit code) or raises.\<close>

type_synonym ('t, 'e) launch = "'t list \<Rightarrow> state \<Rightarrow> state \<times> ('e + status)"

definition call :: "('t, 'e) launch \<Rightarrow> 'e env \<Rightarrow> 't list \<Rightarrow> state \<Rightarrow> state \<times> ('e + unit)" where
  "call launch env tasks s =
     (case launch tasks s of
        (s1, Inl e) \<Rightarrow> (s1, Inl e)
      | (s1, Inr status) \<Rightarrow> summarize env status s1)"

subsection \<open>The summary, as the specification words it\<close>

text \<open>The specification speaks of the failed names and the succeeded count of a result
  list: the names of the entries with a nonzero code, in the order of the list, and the
  number of entries with code 0. The theorems below compare what the code computes with them.\<close>

definition failed_names :: "status \<Rightarrow> string list" where
  "failed_names R = map fst (filter (\<lambda>(t, c). c \<noteq> 0) R)"

definition succeeded_count :: "status \<Rightarrow> nat" where
  "succeeded_count R = length (filter (\<lambda>(t, c). c = 0) R)"

text \<open>The log entries the specification asks for: one per entry with a nonzero code, in
  the order of the list.\<close>

definition failure_entries :: "status \<Rightarrow> event list" where
  "failure_entries R = map (\<lambda>(t, c). LogError (failed_msg t c)) (filter (\<lambda>(t, c). c \<noteq> 0) R)"

fun is_log :: "event \<Rightarrow> bool" where
  "is_log (LogError m) = True"
| "is_log (Post rep t c) = False"

fun is_post :: "event \<Rightarrow> bool" where
  "is_post (LogError m) = False"
| "is_post (Post rep t c) = True"

subsection \<open>Concrete runs\<close>

text \<open>Inputs on which the theorems below are instantiated: a host whose user is
  \<^verbatim>\<open>alice\<close> with a reporter that delivers, the same host with a reporter whose
  \<^verbatim>\<open>post\<close> raises, a runner built with a target address and one built without, and a
  state with nothing emitted yet.\<close>

definition env_ok :: "string env" where
  "env_ok = \<lparr>getuser = ''alice'', post = (\<lambda>rep title content. Inr ())\<rparr>"

definition env_down :: "string env" where
  "env_down = \<lparr>getuser = ''alice'', post = (\<lambda>rep title content. Inl ''ConnectionError'')\<rparr>"

definition hook :: lark_reporter where
  "hook = LarkReporter ''https://hook''"

definition runner_with_target :: runner where
  "runner_with_target = init ''OpenICLInferTask'' False (Some ''https://hook'')"

definition runner_without_target :: runner where
  "runner_without_target = init ''OpenICLInferTask'' False None"

definition start :: "runner \<Rightarrow> state" where
  "start r = \<lparr>self = r, trace = []\<rparr>"

text \<open>A \<^verbatim>\<open>launch\<close> with no effect of its own, under which every task exits with code 1.\<close>

definition launch_all_fail :: "(string, string) launch" where
  "launch_all_fail tasks s = (s, Inr (map (\<lambda>t. (t, 1)) tasks))"

section \<open>What the loop and the method compute\<close>

text \<open>The loop appends: to the trace one entry per failed result, to \<^verbatim>\<open>failed_logs\<close> its
  name. Both accumulators are arbitrary in the induction, since every step changes them.\<close>

lemma status_loop_eq:
  "status_loop R (s, acc) =
     (s\<lparr>trace := trace s @ failure_entries R\<rparr>, acc @ failed_names R)"
  by (induction R arbitrary: s acc)
     (auto simp: failure_entries_def failed_names_def log_error_def)

lemma filter_log_failure_entries: "filter is_log (failure_entries R) = failure_entries R"
  by (induction R) (auto simp: failure_entries_def)

lemma filter_post_failure_entries: "filter is_post (failure_entries R) = []"
  by (induction R) (auto simp: failure_entries_def)

lemma length_failure_entries: "length (failure_entries R) = length (failed_names R)"
  by (simp add: failure_entries_def failed_names_def)

lemma length_failed_succeeded: "length (failed_names R) + succeeded_count R = length R"
  by (induction R) (auto simp: failed_names_def succeeded_count_def)

lemma num_succeeded_eq: "num_succeeded R (failed_names R) = int (succeeded_count R)"
  using length_failed_succeeded [of R] by (simp add: num_succeeded_def)

lemma failed_names_empty_iff: "failed_names R = [] \<longleftrightarrow> (\<forall>tc \<in> set R. snd tc = 0)"
  by (induction R) (auto simp: failed_names_def)

text \<open>The whole method in one equation: the state it leaves and its outcome.\<close>

lemma summarize_eq:
  "summarize env R s =
     (case lark_reporter (self s) of
        None \<Rightarrow> (s\<lparr>trace := trace s @ failure_entries R\<rparr>, Inr ())
      | Some rep \<Rightarrow>
          (if failed_names R \<noteq> []
           then (s\<lparr>trace := trace s @ failure_entries R @
                   [Post rep (failed_title (length (failed_names R)))
                      (failed_content (getuser env) (task_cfg_type (self s))
                         (int (succeeded_count R)) (failed_names R))]\<rparr>,
                 post env rep (failed_title (length (failed_names R)))
                   (failed_content (getuser env) (task_cfg_type (self s))
                      (int (succeeded_count R)) (failed_names R)))
           else (s\<lparr>trace := trace s @ failure_entries R @
                   [Post rep lit_title_done
                      (done_content (getuser env) (task_cfg_type (self s))
                         (int (succeeded_count R)))]\<rparr>,
                 post env rep lit_title_done
                   (done_content (getuser env) (task_cfg_type (self s))
                      (int (succeeded_count R))))))"
proof -
  have n: "num_succeeded R (failed_names R) = int (succeeded_count R)"
    by (rule num_succeeded_eq)
  show ?thesis
  proof (cases "lark_reporter (self s)")
    case None
    then show ?thesis by (simp add: summarize_def status_loop_eq)
  next
    case (Some rep)
    show ?thesis
    proof (cases "failed_names R = []")
      case True
      with n have "num_succeeded R [] = int (succeeded_count R)" by simp
      with True Some show ?thesis
        by (simp add: summarize_def status_loop_eq do_post_def)
    next
      case False
      with Some n show ?thesis
        by (simp add: summarize_def status_loop_eq do_post_def)
    qed
  qed
qed

text \<open>The method assigns no attribute of \<^verbatim>\<open>self\<close>, and its outcome depends on the state
  through \<^verbatim>\<open>self\<close> only.\<close>

lemma summarize_self: "self (fst (summarize env R s)) = self s"
  by (simp add: summarize_eq split: option.splits)

lemma summarize_outcome_self:
  "self s' = self s \<Longrightarrow> snd (summarize env R s') = snd (summarize env R s)"
  by (simp add: summarize_eq split: option.splits)

text \<open>What the method appends to the trace, as a function of the runner, the user name and
  the result list.\<close>

lemma summarize_trace_fun:
  "\<exists>evs. \<forall>env' s'. getuser env' = getuser (env :: 'e env) \<and> self s' = self s \<longrightarrow>
      trace (fst (summarize (env' :: 'e env) R s')) = trace s' @ evs"
proof (cases "lark_reporter (self s)")
  case None
  then show ?thesis
    by (intro exI [of _ "failure_entries R"]) (simp add: summarize_eq)
next
  case (Some rep)
  show ?thesis
  proof (cases "failed_names R = []")
    case True
    with Some show ?thesis
      by (intro exI [of _ "failure_entries R @
            [Post rep lit_title_done
               (done_content (getuser env) (task_cfg_type (self s)) (int (succeeded_count R)))]"])
         (simp add: summarize_eq)
  next
    case False
    with Some show ?thesis
      by (intro exI [of _ "failure_entries R @
            [Post rep (failed_title (length (failed_names R)))
               (failed_content (getuser env) (task_cfg_type (self s))
                  (int (succeeded_count R)) (failed_names R))]"])
         (simp add: summarize_eq)
  qed
qed

text \<open>The only statement of the method that can raise is the call of \<^verbatim>\<open>post\<close>.\<close>

lemma summarize_error_from_post:
  "snd (summarize env R s) = Inl e \<Longrightarrow>
   \<exists>rep title content. lark_reporter (self s) = Some rep \<and> post env rep title content = Inl e"
  by (auto simp: summarize_eq split: option.splits if_splits)

lemma summarize_returns:
  "lark_reporter (self s) = None \<or> (\<forall>rep title content. post env rep title content = Inr ())
   \<Longrightarrow> snd (summarize env R s) = Inr ()"
  by (auto simp: summarize_eq split: option.splits)

section \<open>Lines of a message\<close>

text \<open>Splitting at a separator undoes joining with it, when no piece holds the separator;
  and the text the method puts before the list of names holds no line break unless the user
  name or the task type does.\<close>

lemma split_on_nonempty: "split_on c xs \<noteq> []"
  by (induction xs) (auto split: list.splits)

lemma split_on_no_sep: "c \<notin> set x \<Longrightarrow> split_on c x = [x]"
  by (induction x) auto

lemma split_on_append: "c \<notin> set x \<Longrightarrow> split_on c (x @ c # rest) = x # split_on c rest"
  by (induction x) auto

lemma split_on_join_Cons:
  "c \<notin> set x \<Longrightarrow> \<forall>y \<in> set xs. c \<notin> set y \<Longrightarrow>
   split_on c (join [c] (x # xs)) = x # xs"
proof (induction xs arbitrary: x)
  case Nil
  then show ?case by (simp add: split_on_no_sep)
next
  case (Cons y ys)
  then have "split_on c (join [c] (y # ys)) = y # ys" by simp
  with Cons.prems show ?case by (simp add: split_on_append)
qed

lemma split_on_join:
  "xs \<noteq> [] \<Longrightarrow> \<forall>x \<in> set xs. c \<notin> set x \<Longrightarrow> split_on c (join [c] xs) = xs"
  by (cases xs) (simp_all add: split_on_join_Cons)

lemma digit_not_newline: "d < 10 \<Longrightarrow> digit d \<noteq> newline"
proof -
  assume "d < 10"
  then have "d \<in> {0, 1, 2, 3, 4, 5, 6, 7, 8, 9}" by auto
  then show ?thesis by (auto simp: digit_def newline_def)
qed

lemma newline_notin_str_nat: "newline \<notin> set (str_nat n)"
proof (induction n rule: str_nat.induct)
  case (1 n)
  show ?case
  proof (cases "n < 10")
    case True
    then show ?thesis using digit_not_newline [of n] by (subst str_nat.simps) auto
  next
    case False
    then show ?thesis
      using 1 digit_not_newline [of "n mod 10"] by (subst str_nat.simps) auto
  qed
qed

lemma newline_notin_str_int: "newline \<notin> set (str_int i)"
  using newline_notin_str_nat by (auto simp: str_int_def newline_def)

lemma newline_notin_header:
  "newline \<notin> set user \<Longrightarrow> newline \<notin> set ty \<Longrightarrow>
   newline \<notin> set (failed_header user ty n_ok n_failed)"
  using newline_notin_str_int [of n_ok] newline_notin_str_int [of "int n_failed"]
  by (simp add: failed_header_def)
     (simp add: newline_def lit_of_def lit_task_done_def lit_succeeded_def lit_count_comma_def
        lit_failed_def lit_failed_list_def)

lemma split_failed_content:
  assumes "newline \<notin> set user" "newline \<notin> set ty" "names \<noteq> []"
    "\<forall>x \<in> set names. newline \<notin> set x"
  shows "split_on newline (failed_content user ty n_ok names)
           = failed_header user ty n_ok (length names) # names"
  using assms
  by (simp add: failed_content_def split_on_append newline_notin_header split_on_join)

text \<open>Values of \<^verbatim>\<open>str\<close>, for the concrete runs.\<close>

lemma str_int_1: "str_int 1 = ''1''"
  by (simp add: str_int_def str_nat.simps digit_def)

lemma str_int_137: "str_int 137 = ''137''"
  by (simp add: str_int_def str_nat.simps digit_def)

lemma str_int_0: "str_int 0 = ''0''"
  by (simp add: str_int_def str_nat.simps digit_def)

lemma str_int_3: "str_int 3 = ''3''"
  by (simp add: str_int_def str_nat.simps digit_def)

section \<open>The claims\<close>

subsection \<open>Counts\<close>

text \<open>
  Claim C2. For every result list \<open>R\<close>, the list \<^verbatim>\<open>failed_logs\<close> the loop builds is the list
  of the names of the entries with a nonzero code, the count \<^verbatim>\<open>num_succeeded\<close> of line 66
  is the number of entries with code 0, it is the length of \<open>R\<close> minus the number of failed
  entries, the succeeded count and the number of failed names add up to the length of \<open>R\<close>,
  and every entry of \<open>R\<close> is in exactly one of the two groups: the entries with code 0 and
  the entries with a nonzero code together are the entries of \<open>R\<close>, each as often as in \<open>R\<close>.
\<close>

theorem summary_counts:
  "snd (status_loop R (s, [])) = failed_names R \<and>
   num_succeeded R (snd (status_loop R (s, []))) = int (succeeded_count R) \<and>
   int (succeeded_count R) + int (length (failed_names R)) = int (length R) \<and>
   num_succeeded R (snd (status_loop R (s, [])))
     = int (length R) - int (length (snd (status_loop R (s, [])))) \<and>
   mset (filter (\<lambda>(t, c). c = 0) R) + mset (filter (\<lambda>(t, c). c \<noteq> 0) R) = mset R"
proof -
  have part: "mset (filter (\<lambda>(t, c). c = 0) R) + mset (filter (\<lambda>(t, c). c \<noteq> 0) R) = mset R"
    by (induction R) auto
  have sum: "int (succeeded_count R) + int (length (failed_names R)) = int (length R)"
    using length_failed_succeeded [of R] by simp
  show ?thesis
    using part sum by (simp add: status_loop_eq num_succeeded_eq)
qed

subsection \<open>Log entries\<close>

text \<open>
  Claim C6. For every result list, whatever the configuration and whatever the reporter
  does, \<^verbatim>\<open>summarize\<close> appends to the trace exactly one error-level log entry per entry with a
  nonzero code, in the order of the list, made of the task name, the words
  \<^verbatim>\<open> failed with code \<close> and the code in decimal; an entry with code 0 gives no log entry,
  and what else the method emits (\<open>ps\<close>) holds no log entry.
\<close>

theorem summarize_log_entries:
  "\<exists>ps. trace (fst (summarize env R s)) =
          trace s @
          map (\<lambda>(t, c). LogError (t @ '' failed with code '' @ str_int c))
              (filter (\<lambda>(t, c). c \<noteq> 0) R) @ ps \<and>
        filter is_log ps = []"
proof -
  have fe: "failure_entries R =
      map (\<lambda>(t, c). LogError (t @ '' failed with code '' @ str_int c))
          (filter (\<lambda>(t, c). c \<noteq> 0) R)"
    by (simp add: failure_entries_def failed_msg_def)
  show ?thesis
    unfolding fe [symmetric]
    by (cases "lark_reporter (self s)") (auto simp: summarize_eq)
qed

subsection \<open>The notification when a task failed\<close>

text \<open>
  Claim C3. Let a reporter be configured and let \<open>R\<close> hold at least one entry with a
  nonzero code. Then \<^verbatim>\<open>summarize\<close> emits, after the log entries, exactly one call of
  \<^verbatim>\<open>post\<close>, and it is the failure message: the title is the fixed words around the
  number of failed entries; the body is the user, the task type, the succeeded count, the
  failed count, a line break, and the failed names joined by line breaks, where the failed
  names are the names of the entries with a nonzero code in the order of \<open>R\<close>, one per such
  entry. Read line by line (when neither the user name, the task type nor a name holds a line
  break) the lines after the first are exactly the failed names; and when the names in \<open>R\<close>
  are distinct, as the identity of a task within a run requires, no name is listed twice.
\<close>

theorem failure_notification:
  assumes rep: "lark_reporter (self s) = Some rep"
    and some_failed: "\<exists>tc \<in> set R. snd tc \<noteq> 0"
  shows
   "(\<exists>body.
      trace (fst (summarize env R s)) =
        trace s @ failure_entries R @
        [Post rep
           (lit_title_failed_pre @ str_int (int (length (failed_names R))) @ lit_title_failed_post)
           body] \<and>
      body =
        getuser env @ lit_of @ task_cfg_type (self s) @ lit_task_done @
        lit_succeeded @ str_int (int (succeeded_count R)) @ lit_count_comma @
        lit_failed @ str_int (int (length (failed_names R))) @ lit_failed_list @
        [newline] @ join [newline] (failed_names R) \<and>
      (newline \<notin> set (getuser env) \<and> newline \<notin> set (task_cfg_type (self s)) \<and>
       (\<forall>n \<in> set (failed_names R). newline \<notin> set n)
         \<longrightarrow> tl (split_on newline body) = failed_names R)) \<and>
    failed_names R = map fst (filter (\<lambda>(t, c). c \<noteq> 0) R) \<and>
    filter is_post (failure_entries R) = [] \<and>
    (distinct (map fst R) \<longrightarrow> distinct (failed_names R))"
proof -
  from some_failed have ne: "failed_names R \<noteq> []"
    by (simp add: failed_names_empty_iff)
  let ?body = "failed_content (getuser env) (task_cfg_type (self s))
                 (int (succeeded_count R)) (failed_names R)"
  have tr: "trace (fst (summarize env R s)) =
        trace s @ failure_entries R @
        [Post rep (failed_title (length (failed_names R))) ?body]"
    using rep ne by (simp add: summarize_eq)
  have body: "?body =
        getuser env @ lit_of @ task_cfg_type (self s) @ lit_task_done @
        lit_succeeded @ str_int (int (succeeded_count R)) @ lit_count_comma @
        lit_failed @ str_int (int (length (failed_names R))) @ lit_failed_list @
        [newline] @ join [newline] (failed_names R)"
    by (simp add: failed_content_def failed_header_def)
  have lines: "tl (split_on newline ?body) = failed_names R"
    if "newline \<notin> set (getuser env)" "newline \<notin> set (task_cfg_type (self s))"
       "\<forall>n \<in> set (failed_names R). newline \<notin> set n"
    using that ne by (simp add: split_failed_content)
  have dist: "distinct (failed_names R)" if "distinct (map fst R)"
    using that unfolding failed_names_def by (rule distinct_map_filter)
  have names: "failed_names R = map fst (filter (\<lambda>(t, c). c \<noteq> 0) R)"
    by (simp add: failed_names_def)
  show ?thesis
    apply (intro conjI exI [of _ ?body])
    subgoal using tr by (simp add: failed_title_def)
    subgoal by (rule body)
    subgoal using lines by blast
    subgoal by (rule names)
    subgoal by (rule filter_post_failure_entries)
    subgoal using dist by blast
    done
qed

theorem failure_notification_witness:
  "lark_reporter (self (start runner_with_target)) = Some hook \<and>
   (\<exists>tc \<in> set [(''t1'', 0), (''t2'', 137)]. snd tc \<noteq> (0::int)) \<and>
   trace (fst (summarize env_ok [(''t1'', 0), (''t2'', 137)] (start runner_with_target))) =
     [LogError ''t2 failed with code 137'',
      Post hook (lit_title_failed_pre @ ''1'' @ lit_title_failed_post)
        (''alice'' @ lit_of @ ''OpenICLInferTask'' @ lit_task_done @ lit_succeeded @ ''1'' @
         lit_count_comma @ lit_failed @ ''1'' @ lit_failed_list @ [newline] @ ''t2'')] \<and>
   tl (split_on newline
        (''alice'' @ lit_of @ ''OpenICLInferTask'' @ lit_task_done @ lit_succeeded @ ''1'' @
         lit_count_comma @ lit_failed @ ''1'' @ lit_failed_list @ [newline] @ ''t2'')) = [''t2''] \<and>
   distinct (failed_names [(''t1'', 0), (''t2'', 137)])"
proof -
  let ?R = "[(''t1'', 0), (''t2'', 137)] :: status"
  have h1: "lark_reporter (self (start runner_with_target)) = Some hook"
    by (simp add: start_def runner_with_target_def init_def hook_def)
  have h2: "\<exists>tc \<in> set ?R. snd tc \<noteq> 0" by simp
  have fn: "failed_names ?R = [''t2'']" by (simp add: failed_names_def)
  have sc: "succeeded_count ?R = 1" by (simp add: succeeded_count_def)
  have fe: "failure_entries ?R = [LogError ''t2 failed with code 137'']"
    by (simp add: failure_entries_def failed_msg_def str_int_137)
  have nl: "newline \<notin> set (getuser env_ok) \<and>
            newline \<notin> set (task_cfg_type (self (start runner_with_target))) \<and>
            (\<forall>n \<in> set (failed_names ?R). newline \<notin> set n)"
    by (simp add: fn env_ok_def start_def runner_with_target_def init_def newline_def)
  have d: "distinct (map fst ?R)" by simp
  from failure_notification [OF h1 h2, of env_ok] nl d
  obtain body where
    tr: "trace (fst (summarize env_ok ?R (start runner_with_target))) =
        trace (start runner_with_target) @ failure_entries ?R @
        [Post hook
           (lit_title_failed_pre @ str_int (int (length (failed_names ?R))) @ lit_title_failed_post)
           body]"
    and body: "body =
        getuser env_ok @ lit_of @ task_cfg_type (self (start runner_with_target)) @ lit_task_done @
        lit_succeeded @ str_int (int (succeeded_count ?R)) @ lit_count_comma @
        lit_failed @ str_int (int (length (failed_names ?R))) @ lit_failed_list @
        [newline] @ join [newline] (failed_names ?R)"
    and lines: "tl (split_on newline body) = failed_names ?R"
    and dist: "distinct (failed_names ?R)"
    by blast
  have body': "body = ''alice'' @ lit_of @ ''OpenICLInferTask'' @ lit_task_done @ lit_succeeded @ ''1'' @
         lit_count_comma @ lit_failed @ ''1'' @ lit_failed_list @ [newline] @ ''t2''"
    unfolding body fn sc
    by (simp add: env_ok_def start_def runner_with_target_def init_def str_int_1)
  have tr': "trace (fst (summarize env_ok ?R (start runner_with_target))) =
     [LogError ''t2 failed with code 137'',
      Post hook (lit_title_failed_pre @ ''1'' @ lit_title_failed_post) body]"
    unfolding tr fe fn by (simp add: start_def str_int_1)
  show ?thesis
    using h1 h2 tr' lines dist unfolding body' fn by simp
qed

subsection \<open>The notification when no task failed\<close>

text \<open>
  Claim C4. Let a reporter be configured and let every entry of \<open>R\<close> have code 0 (the empty
  list included). Then \<^verbatim>\<open>summarize\<close> emits nothing but one call of \<^verbatim>\<open>post\<close>, and it is
  the success message: the title is the fixed text of line 80, the body is the user, the task
  type and the succeeded count, which is the length of \<open>R\<close> (0 for the empty list). No task
  name is in it: the message is built from the length of \<open>R\<close> alone, so any other list of
  the same length with all codes 0, whatever its names, gives the same message.
\<close>

theorem success_notification:
  assumes rep: "lark_reporter (self s) = Some rep"
    and all_ok: "\<forall>tc \<in> set R. snd tc = 0"
  shows
   "trace (fst (summarize env R s)) =
      trace s @
      [Post rep lit_title_done
         (getuser env @ lit_of @ task_cfg_type (self s) @ lit_task_done @
          lit_succeeded @ str_int (int (length R)) @ lit_count_stop)] \<and>
    succeeded_count R = length R \<and>
    (\<forall>R'. length R' = length R \<and> (\<forall>tc \<in> set R'. snd tc = 0) \<longrightarrow>
       trace (fst (summarize env R' s)) = trace (fst (summarize env R s)))"
proof -
  have one: "trace (fst (summarize env Q s)) =
      trace s @
      [Post rep lit_title_done
         (getuser env @ lit_of @ task_cfg_type (self s) @ lit_task_done @
          lit_succeeded @ str_int (int (length Q)) @ lit_count_stop)] \<and>
      succeeded_count Q = length Q"
    if ok: "\<forall>tc \<in> set Q. snd tc = 0" for Q
  proof -
    from ok have e: "failed_names Q = []" by (simp add: failed_names_empty_iff)
    with length_failed_succeeded [of Q] have c: "succeeded_count Q = length Q" by simp
    from e have l: "failure_entries Q = []"
      using length_failure_entries [of Q] by simp
    show ?thesis using rep e c l by (simp add: summarize_eq done_content_def)
  qed
  show ?thesis using one [OF all_ok] one by simp
qed

theorem success_notification_witness:
  "lark_reporter (self (start runner_with_target)) = Some hook \<and>
   failed_names [(''t1'', 0), (''t2'', 0), (''t3'', 0)] = [] \<and>
   trace (fst (summarize env_ok [(''t1'', 0), (''t2'', 0), (''t3'', 0)] (start runner_with_target))) =
     [Post hook lit_title_done
        (''alice'' @ lit_of @ ''OpenICLInferTask'' @ lit_task_done @ lit_succeeded @ ''3'' @
         lit_count_stop)] \<and>
   trace (fst (summarize env_ok [(''a'', 0), (''b'', 0), (''c'', 0)] (start runner_with_target))) =
     trace (fst (summarize env_ok [(''t1'', 0), (''t2'', 0), (''t3'', 0)] (start runner_with_target))) \<and>
   trace (fst (summarize env_ok [] (start runner_with_target))) =
     [Post hook lit_title_done
        (''alice'' @ lit_of @ ''OpenICLInferTask'' @ lit_task_done @ lit_succeeded @ ''0'' @
         lit_count_stop)]"
proof -
  let ?R = "[(''t1'', 0), (''t2'', 0), (''t3'', 0)] :: status"
  let ?R' = "[(''a'', 0), (''b'', 0), (''c'', 0)] :: status"
  have h1: "lark_reporter (self (start runner_with_target)) = Some hook"
    by (simp add: start_def runner_with_target_def init_def hook_def)
  have h2: "\<forall>tc \<in> set ?R. snd tc = 0" by simp
  have h3: "\<forall>tc \<in> set ([] :: status). snd tc = 0" by simp
  have h4: "length ?R' = length ?R \<and> (\<forall>tc \<in> set ?R'. snd tc = 0)" by simp
  note three = success_notification [OF h1 h2, of env_ok]
  note none = success_notification [OF h1 h3, of env_ok]
  have a: "failed_names ?R = []" by (simp add: failed_names_def)
  have b: "trace (fst (summarize env_ok ?R (start runner_with_target))) =
     [Post hook lit_title_done
        (''alice'' @ lit_of @ ''OpenICLInferTask'' @ lit_task_done @ lit_succeeded @ ''3'' @
         lit_count_stop)]"
    using three by (simp add: env_ok_def start_def runner_with_target_def init_def str_int_3)
  have c: "trace (fst (summarize env_ok ?R' (start runner_with_target))) =
     trace (fst (summarize env_ok ?R (start runner_with_target)))"
    using three h4 by blast
  have d: "trace (fst (summarize env_ok [] (start runner_with_target))) =
     [Post hook lit_title_done
        (''alice'' @ lit_of @ ''OpenICLInferTask'' @ lit_task_done @ lit_succeeded @ ''0'' @
         lit_count_stop)]"
    using none by (simp add: env_ok_def start_def runner_with_target_def init_def str_int_0)
  show ?thesis using h1 a b c d by blast
qed

subsection \<open>No target, no delivery\<close>

text \<open>
  Claim C5. For every result list, a runner constructed with no notification target emits
  the failure log entries and nothing else: no call of \<^verbatim>\<open>post\<close> is among what
  \<^verbatim>\<open>summarize\<close> appends to the trace, and the method returns normally. The log entries are
  the same as those emitted by a runner constructed with a target \<open>u\<close>, whatever \<open>u\<close> is.
\<close>

theorem no_target_no_delivery:
  "trace (fst (summarize env R \<lparr>self = init ty dbg None, trace = tr\<rparr>)) =
     tr @ map (\<lambda>(t, c). LogError (t @ '' failed with code '' @ str_int c))
            (filter (\<lambda>(t, c). c \<noteq> 0) R) \<and>
   filter is_post (drop (length tr)
     (trace (fst (summarize env R \<lparr>self = init ty dbg None, trace = tr\<rparr>)))) = [] \<and>
   snd (summarize env R \<lparr>self = init ty dbg None, trace = tr\<rparr>) = Inr () \<and>
   filter is_log (drop (length tr)
     (trace (fst (summarize env R \<lparr>self = init ty dbg (Some u), trace = tr\<rparr>)))) =
   filter is_log (drop (length tr)
     (trace (fst (summarize env R \<lparr>self = init ty dbg None, trace = tr\<rparr>))))"
proof -
  have fe: "failure_entries R =
      map (\<lambda>(t, c). LogError (t @ '' failed with code '' @ str_int c))
          (filter (\<lambda>(t, c). c \<noteq> 0) R)"
    by (simp add: failure_entries_def failed_msg_def)
  have none: "summarize env R \<lparr>self = init ty dbg None, trace = tr\<rparr> =
      (\<lparr>self = init ty dbg None, trace = tr @ failure_entries R\<rparr>, Inr ())"
    by (simp add: summarize_eq init_def)
  have some: "filter is_log (drop (length tr)
     (trace (fst (summarize env R \<lparr>self = init ty dbg (Some u), trace = tr\<rparr>)))) =
     failure_entries R"
    by (cases "u = []")
       (simp_all add: summarize_eq init_def filter_log_failure_entries)
  show ?thesis
    unfolding some none fe [symmetric]
    by (simp add: filter_log_failure_entries filter_post_failure_entries)
qed

text \<open>
  Claim C10. The constructor tests the truth of \<^verbatim>\<open>lark_bot_url\<close>, so the empty string
  disables notification as \<^verbatim>\<open>None\<close> does: for every falsy value the attribute
  \<^verbatim>\<open>lark_reporter\<close> is \<^verbatim>\<open>None\<close>, and \<^verbatim>\<open>summarize\<close> on any result list emits the
  failure log entries only, none of which is a call of \<^verbatim>\<open>post\<close>, and returns normally.
\<close>

theorem falsy_target_disables:
  assumes "\<not> truthy u"
  shows "lark_reporter (init ty dbg u) = None \<and>
    trace (fst (summarize env R \<lparr>self = init ty dbg u, trace = tr\<rparr>)) =
      tr @ failure_entries R \<and>
    filter is_post (failure_entries R) = [] \<and>
    snd (summarize env R \<lparr>self = init ty dbg u, trace = tr\<rparr>) = Inr ()"
  using assms by (simp add: init_def summarize_eq filter_post_failure_entries)

theorem falsy_target_disables_witness:
  "\<not> truthy (Some '''') \<and> \<not> truthy None \<and>
   lark_reporter (init ''OpenICLInferTask'' False (Some '''')) = None \<and>
   trace (fst (summarize env_down [(''t1'', 0), (''t2'', 137)]
      \<lparr>self = init ''OpenICLInferTask'' False (Some ''''), trace = []\<rparr>)) =
     [LogError ''t2 failed with code 137''] \<and>
   snd (summarize env_down [(''t1'', 0), (''t2'', 137)]
      \<lparr>self = init ''OpenICLInferTask'' False (Some ''''), trace = []\<rparr>) = Inr ()"
proof -
  have h: "\<not> truthy (Some '''')" by simp
  have fe: "failure_entries [(''t1'', 0), (''t2'', 137)] = [LogError ''t2 failed with code 137'']"
    by (simp add: failure_entries_def failed_msg_def str_int_137)
  from falsy_target_disables [OF h, of "''OpenICLInferTask''" False env_down
      "[(''t1'', 0), (''t2'', 137)]" "[]"]
  show ?thesis by (simp add: fe)
qed

subsection \<open>The debug flag\<close>

text \<open>
  Claim C9. \<^verbatim>\<open>summarize\<close> never reads \<^verbatim>\<open>self.debug\<close>: two runners constructed alike
  but for the debug flag leave the same trace (the same log entries, the same notification
  with the same title and body, or none) and the same outcome on every result list; and
  so does any state when its runner's flag is overwritten.
\<close>

theorem debug_noninterference:
  "trace (fst (summarize env R \<lparr>self = init ty d1 u, trace = tr\<rparr>)) =
   trace (fst (summarize env R \<lparr>self = init ty d2 u, trace = tr\<rparr>)) \<and>
   snd (summarize env R \<lparr>self = init ty d1 u, trace = tr\<rparr>) =
   snd (summarize env R \<lparr>self = init ty d2 u, trace = tr\<rparr>) \<and>
   trace (fst (summarize env R (s\<lparr>self := (self s)\<lparr>debug := d\<rparr>\<rparr>))) =
   trace (fst (summarize env R s)) \<and>
   snd (summarize env R (s\<lparr>self := (self s)\<lparr>debug := d\<rparr>\<rparr>)) = snd (summarize env R s)"
  by (simp add: summarize_eq init_def split: option.splits)

subsection \<open>Calling twice\<close>

text \<open>
  Claim C7. \<^verbatim>\<open>summarize\<close> leaves the runner as it found it, so a second call on the same
  result list, in the state the first call left, builds the same list of failed names and the
  same succeeded count, emits the same events (the same log entries and the same
  notification) and has the same outcome as the first. What the method emits is one list
  \<open>evs\<close> for every state with this runner, whatever was emitted before and whatever the
  reporter does with a message: it is determined by the result list, by the attributes the
  constructor set and by the name of the invoking user, which the method reads from the host
  and which is taken to be the same in both calls.
\<close>

theorem summarize_idempotent:
  "self (fst (summarize env R s)) = self s \<and>
   (\<exists>evs. trace (fst (summarize env R s)) = trace s @ evs \<and>
          trace (fst (summarize env R (fst (summarize env R s)))) = trace s @ evs @ evs \<and>
          (\<forall>env' s'. getuser env' = getuser (env :: 'e env) \<and> self s' = self s \<longrightarrow>
             trace (fst (summarize (env' :: 'e env) R s')) = trace s' @ evs)) \<and>
   snd (summarize env R (fst (summarize env R s))) = snd (summarize env R s) \<and>
   snd (status_loop R (fst (summarize env R s), [])) = snd (status_loop R (s, [])) \<and>
   num_succeeded R (snd (status_loop R (fst (summarize env R s), [])))
     = num_succeeded R (snd (status_loop R (s, [])))"
proof -
  let ?s1 = "fst (summarize env R s)"
  have self1: "self ?s1 = self s" by (rule summarize_self)
  from summarize_trace_fun [of env s R] obtain evs where
    evs: "\<And>env' s'. getuser env' = getuser env \<Longrightarrow> self s' = self s \<Longrightarrow>
      trace (fst (summarize (env' :: 'e env) R s')) = trace s' @ evs"
    by blast
  have t1: "trace ?s1 = trace s @ evs" by (rule evs) simp_all
  have t2: "trace (fst (summarize env R ?s1)) = trace ?s1 @ evs"
    by (rule evs) (simp_all add: self1)
  have out: "snd (summarize env R ?s1) = snd (summarize env R s)"
    by (rule summarize_outcome_self [OF self1])
  show ?thesis
    apply (intro conjI exI [of _ evs])
    subgoal by (rule self1)
    subgoal by (rule t1)
    subgoal using t1 t2 by simp
    subgoal using evs by blast
    subgoal by (rule out)
    subgoal by (simp add: status_loop_eq)
    subgoal by (simp add: status_loop_eq)
    done
qed

theorem summarize_idempotent_witness:
  "self (fst (summarize env_ok [(''t1'', 0), (''t2'', 137)] (start runner_with_target)))
     = runner_with_target \<and>
   trace (fst (summarize env_ok [(''t1'', 0), (''t2'', 137)]
            (fst (summarize env_ok [(''t1'', 0), (''t2'', 137)] (start runner_with_target)))))
     = trace (fst (summarize env_ok [(''t1'', 0), (''t2'', 137)] (start runner_with_target))) @
       trace (fst (summarize env_ok [(''t1'', 0), (''t2'', 137)] (start runner_with_target))) \<and>
   getuser env_down = getuser env_ok \<and>
   trace (fst (summarize env_down [(''t1'', 0), (''t2'', 137)]
            \<lparr>self = runner_with_target, trace = [LogError ''earlier'']\<rparr>))
     = LogError ''earlier'' #
       trace (fst (summarize env_ok [(''t1'', 0), (''t2'', 137)] (start runner_with_target)))"
proof -
  let ?R = "[(''t1'', 0), (''t2'', 137)] :: status"
  let ?s = "start runner_with_target"
  let ?s' = "\<lparr>self = runner_with_target, trace = [LogError ''earlier'']\<rparr>"
  have u: "getuser env_down = getuser env_ok" by (simp add: env_down_def env_ok_def)
  have h: "getuser env_down = getuser env_ok \<and> self ?s' = self ?s"
    by (simp add: u start_def)
  from summarize_idempotent [of env_ok ?R ?s] obtain evs where
    a: "self (fst (summarize env_ok ?R ?s)) = self ?s"
    and b: "trace (fst (summarize env_ok ?R ?s)) = trace ?s @ evs"
    and c: "trace (fst (summarize env_ok ?R (fst (summarize env_ok ?R ?s)))) = trace ?s @ evs @ evs"
    and d: "\<forall>env' s'. getuser env' = getuser env_ok \<and> self s' = self ?s \<longrightarrow>
             trace (fst (summarize (env' :: string env) ?R s')) = trace s' @ evs"
    by blast
  from d h have e: "trace (fst (summarize env_down ?R ?s')) = trace ?s' @ evs" by blast
  have b': "trace (fst (summarize env_ok ?R ?s)) = evs" using b by (simp add: start_def)
  show ?thesis
    unfolding b'
    using a b c e u by (simp add: start_def)
qed

subsection \<open>A delivery that fails\<close>

text \<open>
  Claim C1 says that an error raised by the reporter's \<^verbatim>\<open>post\<close> is caught and logged
  inside \<^verbatim>\<open>summarize\<close>, which then returns normally. The method has no handler: lines 73
  and 80 call \<^verbatim>\<open>post\<close> as plain statements. On the run below the reporter raises
  \<^verbatim>\<open>ConnectionError\<close>; the error is the outcome of \<^verbatim>\<open>summarize\<close>, and the only log entry
  is the one of the failed task.
\<close>

theorem delivery_failure_propagates:
  "lark_reporter (self (start runner_with_target)) = Some hook \<and>
   snd (summarize env_down [(''t1'', 0), (''t2'', 137)] (start runner_with_target))
     = Inl ''ConnectionError'' \<and>
   snd (summarize env_down [(''t1'', 0), (''t2'', 137)] (start runner_with_target)) \<noteq> Inr () \<and>
   filter is_log (trace (fst (summarize env_down [(''t1'', 0), (''t2'', 137)]
                                (start runner_with_target))))
     = [LogError ''t2 failed with code 137'']"
proof -
  have fn: "failed_names [(''t1'', 0), (''t2'', 137)] = [''t2'']"
    by (simp add: failed_names_def)
  have fe: "failure_entries [(''t1'', 0), (''t2'', 137)] = [LogError ''t2 failed with code 137'']"
    by (simp add: failure_entries_def failed_msg_def str_int_137)
  show ?thesis
    by (simp add: summarize_eq start_def runner_with_target_def init_def hook_def
          env_down_def fn fe)
qed

text \<open>
  Claim C1, as the code has it. When a reporter is configured, \<^verbatim>\<open>summarize\<close> makes exactly
  one delivery attempt, after the failure log entries, and the outcome of the method is the
  outcome of that call of \<^verbatim>\<open>post\<close>: the method returns normally when \<^verbatim>\<open>post\<close> does, an
  error \<^verbatim>\<open>post\<close> raises goes to the caller, and the method logs nothing about the delivery.
\<close>

theorem delivery_outcome:
  assumes rep: "lark_reporter (self s) = Some rep"
  shows
   "(\<exists>title content.
       trace (fst (summarize env R s)) = trace s @ failure_entries R @ [Post rep title content] \<and>
       snd (summarize env R s) = post env rep title content) \<and>
    filter is_log (trace (fst (summarize env R s))) = filter is_log (trace s) @ failure_entries R \<and>
    ((\<forall>title content. post env rep title content = Inr ()) \<longrightarrow> snd (summarize env R s) = Inr ()) \<and>
    ((\<forall>title content. post env rep title content = Inl e) \<longrightarrow> snd (summarize env R s) = Inl e)"
proof (cases "failed_names R = []")
  case True
  with rep show ?thesis
    by (simp add: summarize_eq filter_log_failure_entries)
next
  case False
  with rep show ?thesis
    by (simp add: summarize_eq filter_log_failure_entries)
qed

theorem delivery_outcome_witness:
  "lark_reporter (self (start runner_with_target)) = Some hook \<and>
   snd (summarize env_ok [(''t1'', 0), (''t2'', 137)] (start runner_with_target)) = Inr () \<and>
   snd (summarize env_down [] (start runner_with_target)) = Inl ''ConnectionError'' \<and>
   filter is_log (trace (fst (summarize env_down [] (start runner_with_target)))) = []"
proof -
  have h: "lark_reporter (self (start runner_with_target)) = Some hook"
    by (simp add: start_def runner_with_target_def init_def hook_def)
  have ok: "\<forall>title content. post env_ok hook title content = Inr ()"
    by (simp add: env_ok_def)
  have down: "\<forall>title content. post env_down hook title content = Inl ''ConnectionError''"
    by (simp add: env_down_def)
  have fe: "failure_entries [] = []" by (simp add: failure_entries_def)
  from delivery_outcome [OF h, of env_ok "[(''t1'', 0), (''t2'', 137)]"] ok
  have a: "snd (summarize env_ok [(''t1'', 0), (''t2'', 137)] (start runner_with_target)) = Inr ()"
    by blast
  from delivery_outcome [OF h, of env_down "[]" "''ConnectionError''"] down
  have b: "snd (summarize env_down [] (start runner_with_target)) = Inl ''ConnectionError''"
    and c: "filter is_log (trace (fst (summarize env_down [] (start runner_with_target)))) =
             filter is_log (trace (start runner_with_target)) @ failure_entries []"
    by blast+
  show ?thesis using h a b c by (simp add: fe start_def)
qed

subsection \<open>The entry point\<close>

text \<open>
  Claim C8 says that \<^verbatim>\<open>__call__\<close> returns normally even when every task of the result
  list has a nonzero exit code. With a reporter configured, lines 38 and 39 run \<^verbatim>\<open>launch\<close>
  and then \<^verbatim>\<open>summarize\<close>, which calls \<^verbatim>\<open>post\<close> at line 73 with no handler around it. On
  the run below both tasks exit with code 1 and the reporter raises \<^verbatim>\<open>ConnectionError\<close>:
  \<^verbatim>\<open>launch\<close> returns its list, the two failures are logged, and the error of \<^verbatim>\<open>post\<close> is
  the outcome of the call.
\<close>

theorem call_raises_on_failed_delivery:
  "launch_all_fail [''t1'', ''t2''] (start runner_with_target)
     = (start runner_with_target, Inr [(''t1'', 1), (''t2'', 1)]) \<and>
   lark_reporter (self (start runner_with_target)) = Some hook \<and>
   snd (call launch_all_fail env_down [''t1'', ''t2''] (start runner_with_target))
     = Inl ''ConnectionError'' \<and>
   snd (call launch_all_fail env_down [''t1'', ''t2''] (start runner_with_target)) \<noteq> Inr () \<and>
   filter is_log (trace (fst (call launch_all_fail env_down [''t1'', ''t2'']
                                (start runner_with_target))))
     = [LogError ''t1 failed with code 1'', LogError ''t2 failed with code 1'']"
proof -
  have fn: "failed_names [(''t1'', 1), (''t2'', 1)] = [''t1'', ''t2'']"
    by (simp add: failed_names_def)
  have fe: "failure_entries [(''t1'', 1), (''t2'', 1)] =
      [LogError ''t1 failed with code 1'', LogError ''t2 failed with code 1'']"
    by (simp add: failure_entries_def failed_msg_def str_int_1)
  show ?thesis
    by (simp add: call_def launch_all_fail_def summarize_eq start_def runner_with_target_def
          init_def hook_def env_down_def fn fe)
qed

text \<open>
  Claim C8, as the code has it. For every list of task descriptors, \<^verbatim>\<open>__call__\<close> is two
  steps in sequence: \<^verbatim>\<open>launch\<close> on the whole list, then \<^verbatim>\<open>summarize\<close> on the whole list
  \<^verbatim>\<open>launch\<close> returned, in the state \<^verbatim>\<open>launch\<close> left; it returns no value. An error of
  \<^verbatim>\<open>launch\<close> ends the call before any summary. Exit codes are never raised: when
  \<^verbatim>\<open>launch\<close> has returned its list and no reporter is configured, or \<^verbatim>\<open>post\<close> returns, the
  call returns normally whatever the codes are, all nonzero included, having logged one entry
  per failed task. With a reporter configured the outcome of the call is the outcome of the
  one call of \<^verbatim>\<open>post\<close>; and an error that leaves the call was raised by \<^verbatim>\<open>launch\<close> or by
  \<^verbatim>\<open>post\<close>.
\<close>

theorem call_launch_then_summarize:
  "(launch tasks s = (s1, Inr status) \<longrightarrow> call launch env tasks s = summarize env status s1) \<and>
   (launch tasks s = (s1, Inl e) \<longrightarrow> call launch env tasks s = (s1, Inl e)) \<and>
   (launch tasks s = (s1, Inr status) \<and>
      (lark_reporter (self s1) = None \<or> (\<forall>rep title content. post env rep title content = Inr ()))
      \<longrightarrow> snd (call launch env tasks s) = Inr () \<and>
          filter is_log (trace (fst (call launch env tasks s)))
            = filter is_log (trace s1) @ failure_entries status) \<and>
   (launch tasks s = (s1, Inr status) \<and> lark_reporter (self s1) = Some r
      \<longrightarrow> (\<exists>title content.
            trace (fst (call launch env tasks s))
              = trace s1 @ failure_entries status @ [Post r title content] \<and>
            snd (call launch env tasks s) = post env r title content)) \<and>
   (snd (call launch env tasks s) = Inl e \<longrightarrow>
      snd (launch tasks s) = Inl e \<or> (\<exists>rep title content. post env rep title content = Inl e))"
proof -
  have logs: "filter is_log (trace (fst (summarize env R s'))) =
      filter is_log (trace s') @ failure_entries R" for R s'
    by (simp add: summarize_eq filter_log_failure_entries split: option.splits)
  have a: "launch tasks s = (s1, Inr status) \<longrightarrow> call launch env tasks s = summarize env status s1"
    by (simp add: call_def)
  have b: "launch tasks s = (s1, Inl e) \<longrightarrow> call launch env tasks s = (s1, Inl e)"
    by (simp add: call_def)
  have c: "launch tasks s = (s1, Inr status) \<and>
      (lark_reporter (self s1) = None \<or> (\<forall>rep title content. post env rep title content = Inr ()))
      \<longrightarrow> snd (call launch env tasks s) = Inr () \<and>
          filter is_log (trace (fst (call launch env tasks s)))
            = filter is_log (trace s1) @ failure_entries status"
    using summarize_returns [of s1 env status] by (auto simp: call_def logs)
  have p: "launch tasks s = (s1, Inr status) \<and> lark_reporter (self s1) = Some r
      \<longrightarrow> (\<exists>title content.
            trace (fst (call launch env tasks s))
              = trace s1 @ failure_entries status @ [Post r title content] \<and>
            snd (call launch env tasks s) = post env r title content)"
    by (cases "failed_names status = []") (simp_all add: call_def summarize_eq)
  have d: "snd (call launch env tasks s) = Inl e \<longrightarrow>
      snd (launch tasks s) = Inl e \<or> (\<exists>rep title content. post env rep title content = Inl e)"
  proof
    assume r: "snd (call launch env tasks s) = Inl e"
    obtain s' out where l: "launch tasks s = (s', out)" by (cases "launch tasks s")
    show "snd (launch tasks s) = Inl e \<or> (\<exists>rep title content. post env rep title content = Inl e)"
    proof (cases out)
      case (Inl e')
      with l r show ?thesis by (simp add: call_def)
    next
      case (Inr st)
      with l r have "snd (summarize env st s') = Inl e" by (simp add: call_def)
      from summarize_error_from_post [OF this] show ?thesis by blast
    qed
  qed
  from a b c p d show ?thesis by blast
qed

theorem call_launch_then_summarize_witness:
  "launch_all_fail [''t1'', ''t2''] (start runner_without_target)
     = (start runner_without_target, Inr [(''t1'', 1), (''t2'', 1)]) \<and>
   lark_reporter (self (start runner_without_target)) = None \<and>
   call launch_all_fail env_down [''t1'', ''t2''] (start runner_without_target)
     = summarize env_down [(''t1'', 1), (''t2'', 1)] (start runner_without_target) \<and>
   snd (call launch_all_fail env_down [''t1'', ''t2''] (start runner_without_target)) = Inr () \<and>
   filter is_log (trace (fst (call launch_all_fail env_down [''t1'', ''t2'']
                                (start runner_without_target))))
     = [LogError ''t1 failed with code 1'', LogError ''t2 failed with code 1''] \<and>
   launch_all_fail [''t1'', ''t2''] (start runner_with_target)
     = (start runner_with_target, Inr [(''t1'', 1), (''t2'', 1)]) \<and>
   lark_reporter (self (start runner_with_target)) = Some hook \<and>
   snd (call launch_all_fail env_ok [''t1'', ''t2''] (start runner_with_target)) = Inr () \<and>
   filter is_log (trace (fst (call launch_all_fail env_ok [''t1'', ''t2'']
                                (start runner_with_target))))
     = [LogError ''t1 failed with code 1'', LogError ''t2 failed with code 1''] \<and>
   snd (call launch_all_fail env_down [''t1'', ''t2''] (start runner_with_target))
     = Inl ''ConnectionError''"
proof -
  let ?s = "start runner_without_target"
  let ?w = "start runner_with_target"
  let ?st = "[(''t1'', 1), (''t2'', 1)] :: status"
  have l: "launch_all_fail [''t1'', ''t2''] ?s = (?s, Inr ?st)"
    by (simp add: launch_all_fail_def)
  have lw: "launch_all_fail [''t1'', ''t2''] ?w = (?w, Inr ?st)"
    by (simp add: launch_all_fail_def)
  have n: "lark_reporter (self ?s) = None"
    by (simp add: start_def runner_without_target_def init_def)
  have h: "lark_reporter (self ?w) = Some hook"
    by (simp add: start_def runner_with_target_def init_def hook_def)
  have ok: "\<forall>rep title content. post env_ok rep title content = Inr ()"
    by (simp add: env_ok_def)
  have down: "\<And>title content. post env_down hook title content = Inl ''ConnectionError''"
    by (simp add: env_down_def)
  have fe: "failure_entries ?st =
      [LogError ''t1 failed with code 1'', LogError ''t2 failed with code 1'']"
    by (simp add: failure_entries_def failed_msg_def str_int_1)
  note T = call_launch_then_summarize
    [of launch_all_fail "[''t1'', ''t2'']" ?s ?s ?st env_down]
  note W = call_launch_then_summarize
    [of launch_all_fail "[''t1'', ''t2'']" ?w ?w ?st env_ok]
  note D = call_launch_then_summarize
    [of launch_all_fail "[''t1'', ''t2'']" ?w ?w ?st env_down _ hook]
  from T l have a: "call launch_all_fail env_down [''t1'', ''t2''] ?s = summarize env_down ?st ?s"
    by blast
  from T l n have b: "snd (call launch_all_fail env_down [''t1'', ''t2''] ?s) = Inr ()"
    and c: "filter is_log (trace (fst (call launch_all_fail env_down [''t1'', ''t2''] ?s)))
            = filter is_log (trace ?s) @ failure_entries ?st"
    by blast+
  have c': "filter is_log (trace (fst (call launch_all_fail env_down [''t1'', ''t2''] ?s)))
            = [LogError ''t1 failed with code 1'', LogError ''t2 failed with code 1'']"
    unfolding c fe by (simp add: start_def)
  from W lw ok have e: "snd (call launch_all_fail env_ok [''t1'', ''t2''] ?w) = Inr ()"
    and f: "filter is_log (trace (fst (call launch_all_fail env_ok [''t1'', ''t2''] ?w)))
            = filter is_log (trace ?w) @ failure_entries ?st"
    by blast+
  have f': "filter is_log (trace (fst (call launch_all_fail env_ok [''t1'', ''t2''] ?w)))
            = [LogError ''t1 failed with code 1'', LogError ''t2 failed with code 1'']"
    unfolding f fe by (simp add: start_def)
  from D lw h obtain title content where
    "snd (call launch_all_fail env_down [''t1'', ''t2''] ?w) = post env_down hook title content"
    by blast
  with down have g: "snd (call launch_all_fail env_down [''t1'', ''t2''] ?w)
      = Inl ''ConnectionError''"
    by simp
  from l n a b c' lw h e f' g show ?thesis by blast
qed

end
